theory Spec2Isabelle
  imports Main
begin

section \<open>Python values and errors\<close>

text \<open>
  The functions of \<^verbatim>\<open>singstatdata.py\<close> inspect the run-time type of their arguments
  (\<^verbatim>\<open>type(x) not in [str, list]\<close>, \<^verbatim>\<open>isinstance(x, bool)\<close>), so arguments are values of
  a small dynamic type. Strings are ASCII strings.
\<close>

datatype pyval = PNone | PBool bool | PInt int | PStr string | PList "pyval list"

text \<open>
  The exceptions the modelled code can raise. \<open>ReUnsupported\<close> is not a Python exception:
  it marks a pattern that uses regular-expression syntax outside the fragment of
  \<^verbatim>\<open>re\<close> that is modelled below (literal characters, \<^verbatim>\<open>.\<close> and \<^verbatim>\<open>|\<close>).
\<close>

datatype error = TypeError | AssertionError | UnboundLocalError | KeyError | ValueError
  | IndexError | ReUnsupported

fun is_str :: "pyval \<Rightarrow> bool" where
  "is_str (PStr s) = True"
| "is_str v = False"

fun is_bool :: "pyval \<Rightarrow> bool" where
  "is_bool (PBool b) = True"
| "is_bool v = False"

text \<open>\<^verbatim>\<open>isinstance(v, int)\<close>: \<^verbatim>\<open>bool\<close> is a subclass of \<^verbatim>\<open>int\<close>.\<close>

fun isinstance_int :: "pyval \<Rightarrow> bool" where
  "isinstance_int (PInt n) = True"
| "isinstance_int (PBool b) = True"
| "isinstance_int v = False"

text \<open>The string held by a value that validation has already shown to be a \<^verbatim>\<open>str\<close>.\<close>

fun the_str :: "pyval \<Rightarrow> string" where
  "the_str (PStr s) = s"
| "the_str v = []"

section \<open>Strings\<close>

text \<open>\<^verbatim>\<open>str.lower()\<close> on ASCII: the letters A to Z move to a to z.\<close>

definition lower_char :: "char \<Rightarrow> char" where
  "lower_char c =
     (if 65 \<le> (of_char c :: nat) \<and> (of_char c :: nat) \<le> 90
      then char_of (of_char c + (32 :: nat)) else c)"

definition lower :: "string \<Rightarrow> string" where
  "lower s = map lower_char s"

fun startswith :: "string \<Rightarrow> string \<Rightarrow> bool" where
  "startswith [] s = True"
| "startswith (c # p) [] = False"
| "startswith (c # p) (d # s) = (c = d \<and> startswith p s)"

text \<open>\<^verbatim>\<open>p in s\<close> for two strings: \<open>p\<close> occurs in \<open>s\<close> as a contiguous substring.\<close>

fun str_contains :: "string \<Rightarrow> string \<Rightarrow> bool" where
  "str_contains p [] = startswith p []"
| "str_contains p (d # s) = (startswith p (d # s) \<or> str_contains p s)"

text \<open>\<^verbatim>\<open>'|'.join(parts)\<close>.\<close>

fun join_bar :: "string list \<Rightarrow> string" where
  "join_bar [] = []"
| "join_bar [p] = p"
| "join_bar (p # q # ps) = p @ CHR ''|'' # join_bar (q # ps)"

section \<open>A fragment of \<^verbatim>\<open>re.search\<close>\<close>

text \<open>
  \<^verbatim>\<open>get_resource_id\<close> hands the joined keyphrases to \<^verbatim>\<open>re.search\<close> as a pattern. The
  model covers the patterns built from literal characters, \<^verbatim>\<open>.\<close> (any character but a
  newline) and top-level alternation \<^verbatim>\<open>|\<close>. A pattern holding any other character that
  \<^verbatim>\<open>re\<close> may treat specially (backslash, \<^verbatim>\<open>^ $ * + ? { } [ ] ( )\<close>) is outside the
  fragment and compiles to \<open>ReUnsupported\<close>.
\<close>

datatype atom = Lit char | AnyChar

definition special_chars :: "char list" where
  "special_chars = [CHR 0x5C, CHR ''^'', CHR ''$'', CHR ''*'', CHR ''+'', CHR ''?'',
     CHR ''{'', CHR ''}'', CHR ''['', CHR '']'', CHR ''('', CHR '')'']"

definition to_atom :: "char \<Rightarrow> atom" where
  "to_atom c = (if c = CHR ''.'' then AnyChar else Lit c)"

text \<open>The alternatives of a pattern: the pieces between the \<^verbatim>\<open>|\<close> characters.\<close>

fun split_alts :: "string \<Rightarrow> string list" where
  "split_alts [] = [[]]"
| "split_alts (c # cs) =
     (if c = CHR ''|'' then [] # split_alts cs
      else (case split_alts cs of [] \<Rightarrow> [[c]] | a # as \<Rightarrow> (c # a) # as))"

definition re_compile :: "string \<Rightarrow> error + atom list list" where
  "re_compile p =
     (if list_ex (\<lambda>c. c \<in> set special_chars) p then Inl ReUnsupported
      else Inr (map (map to_atom) (split_alts p)))"

fun atom_matches :: "atom \<Rightarrow> char \<Rightarrow> bool" where
  "atom_matches (Lit c) d = (c = d)"
| "atom_matches AnyChar d = (d \<noteq> CHR 0x0A)"

fun match_here :: "atom list \<Rightarrow> string \<Rightarrow> bool" where
  "match_here [] s = True"
| "match_here (a # as) [] = False"
| "match_here (a # as) (d # s) = (atom_matches a d \<and> match_here as s)"

fun match_anywhere :: "atom list \<Rightarrow> string \<Rightarrow> bool" where
  "match_anywhere as [] = match_here as []"
| "match_anywhere as (d # s) = (match_here as (d # s) \<or> match_anywhere as s)"

text \<open>\<^verbatim>\<open>re.search\<close> finds a match when some alternative matches at some position.\<close>

definition re_search :: "atom list list \<Rightarrow> string \<Rightarrow> bool" where
  "re_search alts s = list_ex (\<lambda>as. match_anywhere as s) alts"

text \<open>
  A keyphrase is plain when none of its characters is special in a pattern: then the
  pattern it contributes is a sequence of literal characters.
\<close>

definition plain_char :: "char \<Rightarrow> bool" where
  "plain_char c = (c \<notin> set special_chars \<and> c \<noteq> CHR ''.'' \<and> c \<noteq> CHR ''|'')"

definition plain :: "string \<Rightarrow> bool" where
  "plain k = list_all plain_char k"

section \<open>The resolver: \<^verbatim>\<open>get_resource_id\<close>\<close>

text \<open>
  One record of the directory listing. The code reads the identifier as the first value
  of the record and the title as the second (\<^verbatim>\<open>list(dataset.values())[0]\<close>, \<^verbatim>\<open>[1]\<close>).
\<close>

record dataset =
  dataset_id :: int
  dataset_title :: string

text \<open>
  The argument check of lines 57 to 62: \<^verbatim>\<open>keyphrases\<close> is \<^verbatim>\<open>None\<close>, a \<^verbatim>\<open>str\<close> or a
  \<^verbatim>\<open>list\<close> of \<^verbatim>\<open>str\<close>.
\<close>

fun keyphrases_ok :: "pyval \<Rightarrow> bool" where
  "keyphrases_ok PNone = True"
| "keyphrases_ok (PStr k) = True"
| "keyphrases_ok (PList ks) = list_all is_str ks"
| "keyphrases_ok v = False"

text \<open>
  The directory is what \<^verbatim>\<open>get_json(url)\<close> gave: \<open>None\<close> when the request failed (a
  falsy result), otherwise the list under \<^verbatim>\<open>'records'\<close>. The result is \<open>Inr None\<close> where
  the code returns \<^verbatim>\<open>None\<close>.
\<close>

definition title_has :: "dataset \<Rightarrow> string \<Rightarrow> bool" where
  "title_has d k = str_contains (lower k) (lower (dataset_title d))"

definition get_resource_id :: "dataset list option \<Rightarrow> pyval \<Rightarrow> pyval \<Rightarrow> error + int list option" where
  "get_resource_id json keyphrases match_all =
     (if \<not> keyphrases_ok keyphrases then Inl TypeError
      else if \<not> is_bool match_all then Inl TypeError
      else (case json of
          None \<Rightarrow> Inr None
        | Some records \<Rightarrow>
            if length records = 0 then Inr None
            else (case keyphrases of
                PNone \<Rightarrow> Inr (Some (map dataset_id records))
              | PStr k \<Rightarrow> Inr (Some (map dataset_id (filter (\<lambda>d. title_has d k) records)))
              | PList ks \<Rightarrow>
                  if match_all = PBool False then
                    (case re_compile (join_bar (map (\<lambda>k. lower (the_str k)) ks)) of
                       Inl e \<Rightarrow> Inl e
                     | Inr regstr \<Rightarrow>
                         Inr (Some (map dataset_id
                           (filter (\<lambda>d. re_search regstr (lower (dataset_title d))) records))))
                  else
                    Inr (Some (map dataset_id
                      (filter (\<lambda>d. list_all (\<lambda>k. title_has d (the_str k)) ks) records)))
              | _ \<Rightarrow> Inr None)))"

section \<open>The metadata aggregator: \<^verbatim>\<open>get_overview\<close>\<close>

text \<open>One row of the overview table, and one record of a metadata document.\<close>

record overview_row =
  resourceId :: int
  title :: string
  frequency :: string
  uom :: string
  datasource :: string
  footnote :: "string option"
  startPeriod :: string
  endPeriod :: string
  variables :: "(string \<times> string) list"

record metadata_record = overview_row +
  downloadFormats :: string
  termsOfUse :: string
  apiTermsOfService :: string
  url :: string

text \<open>
  A \<^verbatim>\<open>DataFrame\<close> with the overview's columns: its rows in order, each with its index
  label. \<^verbatim>\<open>pd.DataFrame(records)\<close> labels the rows from 0.
\<close>

type_synonym dataframe = "(nat \<times> overview_row) list"

definition DataFrame :: "overview_row list \<Rightarrow> dataframe" where
  "DataFrame rows = zip [0 ..< length rows] rows"

text \<open>\<^verbatim>\<open>df.drop(columns=['downloadFormats', 'termsOfUse', 'apiTermsOfService', 'url'])\<close>.\<close>

definition drop_columns :: "metadata_record \<Rightarrow> overview_row" where
  "drop_columns m =
     \<lparr>resourceId = resourceId m, title = title m, frequency = frequency m, uom = uom m,
      datasource = datasource m, footnote = footnote m, startPeriod = startPeriod m,
      endPeriod = endPeriod m, variables = variables m\<rparr>"

fun check_resource_ids :: "pyval \<Rightarrow> error + unit" where
  "check_resource_ids (PInt n) = Inr ()"
| "check_resource_ids (PList ids) = (if list_all isinstance_int ids then Inr () else Inl TypeError)"
| "check_resource_ids v = Inl TypeError"

text \<open>
  \<^verbatim>\<open>build_metadata_table\<close>. \<open>get_json ID\<close> is what the metadata request for \<open>ID\<close> gave:
  \<open>None\<close> when it failed (\<^verbatim>\<open>json['records']\<close> then raises \<^verbatim>\<open>TypeError\<close>), otherwise the
  list under \<^verbatim>\<open>'records'\<close>. A document with no record gives a frame without columns, on
  which \<^verbatim>\<open>drop\<close> raises \<^verbatim>\<open>KeyError\<close>. \<^verbatim>\<open>pd.concat\<close> appends the rows and keeps their labels.
\<close>

definition build_metadata_table ::
  "(pyval \<Rightarrow> metadata_record list option) \<Rightarrow> dataframe \<Rightarrow> pyval \<Rightarrow> error + dataframe" where
  "build_metadata_table get_json df_full ID =
     (case get_json ID of
        None \<Rightarrow> Inl TypeError
      | Some records \<Rightarrow>
          if records = [] then Inl KeyError
          else Inr (df_full @ DataFrame (map drop_columns records)))"

text \<open>The loop \<^verbatim>\<open>for ID in resource_ids: df_full = build_metadata_table(df_full, ID)\<close>.\<close>

fun build_all ::
  "(pyval \<Rightarrow> metadata_record list option) \<Rightarrow> dataframe \<Rightarrow> pyval list \<Rightarrow> error + dataframe" where
  "build_all get_json df_full [] = Inr df_full"
| "build_all get_json df_full (ID # ids) =
     (case build_metadata_table get_json df_full ID of
        Inl e \<Rightarrow> Inl e
      | Inr df \<Rightarrow> build_all get_json df ids)"

text \<open>
  \<^verbatim>\<open>sort_values('resourceId')\<close> orders the rows by identifier, ascending, and
  \<^verbatim>\<open>reset_index(drop=True)\<close> labels them anew from 0. Pandas does not fix the order of rows
  with equal identifiers; the model uses an insertion sort, and no theorem below depends
  on the order among equal keys.
\<close>

definition sort_values :: "dataframe \<Rightarrow> dataframe" where
  "sort_values df = sort_key (\<lambda>ir. resourceId (snd ir)) df"

definition reset_index :: "dataframe \<Rightarrow> dataframe" where
  "reset_index df = DataFrame (map snd df)"

text \<open>
  \<^verbatim>\<open>get_overview\<close>. \<open>df_full\<close> starts as \<^verbatim>\<open>pd.DataFrame()\<close>, a frame without columns, and
  every successful \<^verbatim>\<open>build_metadata_table\<close> adds at least one row; so \<open>df_full\<close> has no
  rows exactly when it still has no columns, and then \<^verbatim>\<open>sort_values('resourceId')\<close> raises
  \<^verbatim>\<open>KeyError\<close>.
\<close>

definition get_overview ::
  "(pyval \<Rightarrow> metadata_record list option) \<Rightarrow> pyval \<Rightarrow> error + dataframe" where
  "get_overview get_json resource_ids =
     (case check_resource_ids resource_ids of
        Inl e \<Rightarrow> Inl e
      | Inr u \<Rightarrow>
          (case (case resource_ids of
                   PInt n \<Rightarrow> build_metadata_table get_json [] resource_ids
                 | PList ids \<Rightarrow> build_all get_json [] ids
                 | _ \<Rightarrow> Inr []) of
             Inl e \<Rightarrow> Inl e
           | Inr df_full \<Rightarrow>
               if df_full = [] then Inl KeyError
               else Inr (reset_index (sort_values df_full))))"

section \<open>The series fetcher: \<^verbatim>\<open>get_timeseries\<close>\<close>

text \<open>
  A \<^verbatim>\<open>dict\<close> as an association list in insertion order, with unique keys: storing under
  a key that is present replaces its value in place.
\<close>

fun dict_set :: "('k \<times> 'v) list \<Rightarrow> 'k \<Rightarrow> 'v \<Rightarrow> ('k \<times> 'v) list" where
  "dict_set [] k v = [(k, v)]"
| "dict_set (kv # d) k v = (if fst kv = k then (fst kv, v) # d else kv # dict_set d k v)"

text \<open>The dictionary key of an identifier: \<^verbatim>\<open>True\<close> and \<^verbatim>\<open>1\<close> are the same key.\<close>

fun key_of :: "pyval \<Rightarrow> int" where
  "key_of (PInt n) = n"
| "key_of (PBool b) = (if b then 1 else 0)"
| "key_of v = 0"

text \<open>
  \<^verbatim>\<open>build_table(ID)\<close> requests the observations of one dataset and pivots them with
  pandas; the model takes its outcome as the parameter \<open>build_table limit offset ID\<close>.
\<close>

fun build_tables ::
  "(pyval \<Rightarrow> error + 't) \<Rightarrow> (int \<times> 't) list \<Rightarrow> pyval list \<Rightarrow> error + (int \<times> 't) list" where
  "build_tables build timeseries_dict [] = Inr timeseries_dict"
| "build_tables build timeseries_dict (ID # ids) =
     (case build ID of
        Inl e \<Rightarrow> Inl e
      | Inr df \<Rightarrow> build_tables build (dict_set timeseries_dict (key_of ID) df) ids)"

fun is_int :: "pyval \<Rightarrow> bool" where
  "is_int (PInt n) = True"
| "is_int v = False"

definition get_timeseries ::
  "(pyval \<Rightarrow> pyval \<Rightarrow> pyval \<Rightarrow> error + 't) \<Rightarrow> pyval \<Rightarrow> pyval \<Rightarrow> pyval \<Rightarrow> error + (int \<times> 't) list" where
  "get_timeseries build_table resource_ids limit offset =
     (case check_resource_ids resource_ids of
        Inl e \<Rightarrow> Inl e
      | Inr u \<Rightarrow>
          if \<not> is_int limit then Inl TypeError
          else if \<not> is_int offset then Inl TypeError
          else (case resource_ids of
                  PInt n \<Rightarrow> build_tables (build_table limit offset) [] [resource_ids]
                | PList ids \<Rightarrow> build_tables (build_table limit offset) [] ids
                | _ \<Rightarrow> Inr []))"

section \<open>The session: \<^verbatim>\<open>timeseries_search\<close>\<close>

record 't session =
  resource_ids :: "int list"
  overview :: dataframe
  timeseries :: "(int \<times> 't) list"

text \<open>What \<^verbatim>\<open>get_resource_id\<close> returned, as the value handed on to the next two calls.\<close>

fun ids_value :: "int list option \<Rightarrow> pyval" where
  "ids_value None = PNone"
| "ids_value (Some ids) = PList (map PInt ids)"

text \<open>
  \<^verbatim>\<open>__init__\<close>: the three calls in sequence; an exception in one of them leaves no object.
\<close>

definition timeseries_search_init ::
  "dataset list option \<Rightarrow> (pyval \<Rightarrow> metadata_record list option) \<Rightarrow>
   (pyval \<Rightarrow> pyval \<Rightarrow> pyval \<Rightarrow> error + 't) \<Rightarrow> pyval \<Rightarrow> pyval \<Rightarrow> error + 't session" where
  "timeseries_search_init dir_json meta_json build_table keyphrases match_all =
     (case get_resource_id dir_json keyphrases match_all of
        Inl e \<Rightarrow> Inl e
      | Inr found \<Rightarrow>
          (case get_overview meta_json (ids_value found) of
             Inl e \<Rightarrow> Inl e
           | Inr ov \<Rightarrow>
               (case get_timeseries build_table (ids_value found) (PInt 10000) (PInt 0) of
                  Inl e \<Rightarrow> Inl e
                | Inr ts \<Rightarrow>
                    Inr \<lparr>resource_ids = (case found of None \<Rightarrow> [] | Some ids \<Rightarrow> ids),
                         overview = ov, timeseries = ts\<rparr>)))"

section \<open>\<^verbatim>\<open>filter_datasets\<close>\<close>

subsection \<open>Checking the arguments (lines 367 to 374)\<close>

text \<open>
  Line 367: \<^verbatim>\<open>frequency\<close> is a \<^verbatim>\<open>str\<close> (whose items, its characters, are all \<^verbatim>\<open>str\<close>) or
  a \<^verbatim>\<open>list\<close> of \<^verbatim>\<open>str\<close>.
\<close>

fun frequency_type_ok :: "pyval \<Rightarrow> bool" where
  "frequency_type_ok (PStr f) = True"
| "frequency_type_ok (PList fs) = list_all is_str fs"
| "frequency_type_ok v = False"

text \<open>\<^verbatim>\<open>str(n)\<close> for an integer: its decimal digits, after a minus sign when negative.\<close>

definition digit_char :: "nat \<Rightarrow> char" where
  "digit_char d = char_of (48 + d)"

fun str_nat :: "nat \<Rightarrow> string" where
  "str_nat n = (if n < 10 then [digit_char n] else str_nat (n div 10) @ [digit_char (n mod 10)])"

declare str_nat.simps [simp del]

definition str_int :: "int \<Rightarrow> string" where
  "str_int i = (if i < 0 then CHR ''-'' # str_nat (nat (- i)) else str_nat (nat i))"

text \<open>
  Line 370: \<^verbatim>\<open>type(start_year) not in [int, type(None)] or len(str(start_year)) != 4\<close>
  raises; \<^verbatim>\<open>str(None)\<close> is \<^verbatim>\<open>'None'\<close>. A \<^verbatim>\<open>bool\<close> is not of type \<^verbatim>\<open>int\<close>.
\<close>

fun start_year_ok :: "pyval \<Rightarrow> bool" where
  "start_year_ok PNone = (length ''None'' = 4)"
| "start_year_ok (PInt n) = (length (str_int n) = 4)"
| "start_year_ok v = False"

definition check_filter_args :: "pyval \<Rightarrow> pyval \<Rightarrow> pyval \<Rightarrow> error + unit" where
  "check_filter_args freq_arg start_year inplace =
     (if \<not> frequency_type_ok freq_arg then Inl TypeError
      else if \<not> start_year_ok start_year then Inl TypeError
      else if \<not> is_bool inplace then Inl TypeError
      else Inr ())"

subsection \<open>The frequency test (lines 376 to 390)\<close>

definition frequencies :: "string list" where
  "frequencies = [''all,'', ''annual'', ''quarterly'', ''monthly'', ''ad-hoc'', ''half-yearly'']"

text \<open>
  For a list, every item is asserted to be in \<open>frequencies\<close>, then the rows whose
  lower-cased frequency is in the list are kept, unless \<^verbatim>\<open>'all'\<close> is in the list. For a
  \<^verbatim>\<open>str\<close>, line 386 asserts \<^verbatim>\<open>freq in frequencies\<close>; \<^verbatim>\<open>freq\<close> is the variable of the loop of
  the other branch (the generator of line 367 has a scope of its own), so it is a local
  variable with no value and reading it raises \<^verbatim>\<open>UnboundLocalError\<close>, before the test of
  lines 387 to 390. For any other value neither branch runs and \<^verbatim>\<open>filtered_overview\<close>,
  read next, has no value.
\<close>

fun frequency_filter :: "dataframe \<Rightarrow> pyval \<Rightarrow> error + dataframe" where
  "frequency_filter ov (PList fs) =
     (if \<not> list_all (\<lambda>freq. the_str freq \<in> set frequencies) fs then Inl AssertionError
      else if PStr ''all'' \<notin> set fs
        then Inr (filter (\<lambda>ir. PStr (lower (frequency (snd ir))) \<in> set fs) ov)
        else Inr ov)"
| "frequency_filter ov (PStr f) = Inl UnboundLocalError"
| "frequency_filter ov v = Inl UnboundLocalError"

subsection \<open>The start year test (lines 392 to 395)\<close>

text \<open>\<^verbatim>\<open>str.split()\<close>: the maximal runs of characters that are not whitespace.\<close>

definition is_space :: "char \<Rightarrow> bool" where
  "is_space c = ((of_char c :: nat) \<in> set [9, 10, 11, 12, 13, 28, 29, 30, 31, 32])"

fun split_ws :: "string \<Rightarrow> string \<Rightarrow> string list" where
  "split_ws cur [] = (if cur = [] then [] else [cur])"
| "split_ws cur (c # cs) =
     (if is_space c then (if cur = [] then split_ws [] cs else cur # split_ws [] cs)
      else split_ws (cur @ [c]) cs)"

definition py_split :: "string \<Rightarrow> string list" where
  "py_split s = split_ws [] s"

text \<open>
  \<^verbatim>\<open>int(tok)\<close> for a string without whitespace: an optional sign, then decimal digits,
  where single underscores may stand between digits. \<open>None\<close> is \<^verbatim>\<open>ValueError\<close>.
\<close>

definition is_digit :: "char \<Rightarrow> bool" where
  "is_digit c = (48 \<le> (of_char c :: nat) \<and> (of_char c :: nat) \<le> 57)"

definition digit_val :: "char \<Rightarrow> nat" where
  "digit_val c = of_char c - 48"

fun digits_more :: "nat \<Rightarrow> string \<Rightarrow> nat option" where
  "digits_more acc [] = Some acc"
| "digits_more acc [c] = (if is_digit c then Some (10 * acc + digit_val c) else None)"
| "digits_more acc (c # d # ds) =
     (if is_digit c then digits_more (10 * acc + digit_val c) (d # ds)
      else if c = CHR ''_'' \<and> is_digit d then digits_more (10 * acc + digit_val d) ds
      else None)"

fun parse_nat :: "string \<Rightarrow> nat option" where
  "parse_nat [] = None"
| "parse_nat (c # cs) = (if is_digit c then digits_more (digit_val c) cs else None)"

fun py_int :: "string \<Rightarrow> int option" where
  "py_int [] = None"
| "py_int (c # cs) =
     (if c = CHR ''-'' then map_option (\<lambda>n. - int n) (parse_nat cs)
      else if c = CHR ''+'' then map_option int (parse_nat cs)
      else map_option int (parse_nat (c # cs)))"

text \<open>
  \<^verbatim>\<open>int(i[0])\<close> for \<open>i\<close> the split of a start period: a start period without a token
  raises \<^verbatim>\<open>IndexError\<close>, a leading token that is no integer raises \<^verbatim>\<open>ValueError\<close>.
\<close>

definition leading_year :: "string \<Rightarrow> error + int" where
  "leading_year period =
     (case py_split period of
        [] \<Rightarrow> Inl IndexError
      | tok # toks \<Rightarrow> (case py_int tok of None \<Rightarrow> Inl ValueError | Some y \<Rightarrow> Inr y))"

text \<open>
  The list \<^verbatim>\<open>[int(i[0]) >= start_year for i in ...str.split()]\<close>: one truth value per row,
  computed in row order, so the first row that raises decides the exception.
\<close>

fun year_mask :: "dataframe \<Rightarrow> int \<Rightarrow> error + bool list" where
  "year_mask [] start_year = Inr []"
| "year_mask (ir # df) start_year =
     (case leading_year (startPeriod (snd ir)) of
        Inl e \<Rightarrow> Inl e
      | Inr y \<Rightarrow>
          (case year_mask df start_year of
             Inl e \<Rightarrow> Inl e
           | Inr keep \<Rightarrow> Inr ((y \<ge> start_year) # keep)))"

text \<open>
  \<^verbatim>\<open>df[mask]\<close> with a list: a non-empty list of booleans selects the rows whose entry is
  true and keeps their labels; the empty list is no boolean indexer and selects the
  columns it names, that is none, so the result is a frame without columns.
\<close>

datatype selection = Table dataframe | NoColumns

definition bool_index :: "dataframe \<Rightarrow> bool list \<Rightarrow> selection" where
  "bool_index df keep =
     (if keep = [] then NoColumns else Table (map fst (filter snd (zip df keep))))"

fun truthy :: "pyval \<Rightarrow> bool" where
  "truthy PNone = False"
| "truthy (PBool b) = b"
| "truthy (PInt n) = (n \<noteq> 0)"
| "truthy (PStr s) = (s \<noteq> [])"
| "truthy (PList vs) = (vs \<noteq> [])"

fun the_int :: "pyval \<Rightarrow> int" where
  "the_int (PInt n) = n"
| "the_int v = 0"

definition start_year_filter :: "dataframe \<Rightarrow> pyval \<Rightarrow> error + selection" where
  "start_year_filter filtered_overview start_year =
     (if truthy start_year then
        (case year_mask filtered_overview (the_int start_year) of
           Inl e \<Rightarrow> Inl e
         | Inr keep \<Rightarrow> Inr (bool_index filtered_overview keep))
      else Inr (Table filtered_overview))"

subsection \<open>The surviving identifiers and the two ways to end (lines 397 to 407)\<close>

text \<open>\<^verbatim>\<open>list(filtered_overview['resourceId'])\<close>.\<close>

fun column_resourceId :: "selection \<Rightarrow> error + int list" where
  "column_resourceId (Table df) = Inr (map (\<lambda>ir. resourceId (snd ir)) df)"
| "column_resourceId NoColumns = Inl KeyError"

text \<open>Lines 376 to 397 together: the surviving identifiers of an overview.\<close>

definition new_ids_of :: "dataframe \<Rightarrow> pyval \<Rightarrow> pyval \<Rightarrow> error + int list" where
  "new_ids_of ov freq_arg start_year =
     (case frequency_filter ov freq_arg of
        Inl e \<Rightarrow> Inl e
      | Inr filtered_overview \<Rightarrow>
          (case start_year_filter filtered_overview start_year of
             Inl e \<Rightarrow> Inl e
           | Inr filtered \<Rightarrow> column_resourceId filtered))"

text \<open>\<^verbatim>\<open>self.overview.loc[self.overview['resourceId'].isin(new_ids)]\<close>.\<close>

definition isin_ids :: "dataframe \<Rightarrow> int list \<Rightarrow> dataframe" where
  "isin_ids ov new_ids = filter (\<lambda>ir. resourceId (snd ir) \<in> set new_ids) ov"

text \<open>
  \<^verbatim>\<open>{ID: self.timeseries[ID] for ID in ids}\<close>: the entries are stored in the order of
  \<open>ids\<close>; an identifier that is no key of \<^verbatim>\<open>self.timeseries\<close> raises \<^verbatim>\<open>KeyError\<close>.
\<close>

fun dict_comp :: "(int \<times> 't) list \<Rightarrow> (int \<times> 't) list \<Rightarrow> int list \<Rightarrow> error + (int \<times> 't) list" where
  "dict_comp ts acc [] = Inr acc"
| "dict_comp ts acc (ID # ids) =
     (case map_of ts ID of
        None \<Rightarrow> Inl KeyError
      | Some df \<Rightarrow> dict_comp ts (dict_set acc ID df) ids)"

text \<open>
  \<^verbatim>\<open>filter_datasets\<close> (its parameter \<^verbatim>\<open>frequency\<close> is \<open>freq_arg\<close> here, since
  \<open>frequency\<close> names the column): the outcome (an exception, \<^verbatim>\<open>None\<close> or the returned dictionary) and
  the session afterwards. In place, \<^verbatim>\<open>resource_ids\<close> and \<^verbatim>\<open>overview\<close> are assigned before the
  dictionary of line 402 is built, so a \<^verbatim>\<open>KeyError\<close> there leaves them assigned. The calls
  of \<^verbatim>\<open>display\<close> change nothing and are left out.
\<close>

definition filter_datasets ::
  "'t session \<Rightarrow> pyval \<Rightarrow> pyval \<Rightarrow> pyval \<Rightarrow> (error + (int \<times> 't) list option) \<times> 't session" where
  "filter_datasets self freq_arg start_year inplace =
     (case check_filter_args freq_arg start_year inplace of
        Inl e \<Rightarrow> (Inl e, self)
      | Inr u \<Rightarrow>
          (case new_ids_of (overview self) freq_arg start_year of
             Inl e \<Rightarrow> (Inl e, self)
           | Inr new_ids \<Rightarrow>
               if inplace = PBool True then
                 (let self1 = self\<lparr>resource_ids := new_ids\<rparr>;
                      self2 = self1\<lparr>overview := isin_ids (overview self1) new_ids\<rparr>
                  in case dict_comp (timeseries self2) [] (resource_ids self2) of
                       Inl e \<Rightarrow> (Inl e, self2)
                     | Inr ts \<Rightarrow> (Inr None, self2\<lparr>timeseries := ts\<rparr>))
               else
                 (case dict_comp (timeseries self) [] new_ids of
                    Inl e \<Rightarrow> (Inl e, self)
                  | Inr d \<Rightarrow> (Inr (Some d), self))))"

section \<open>Predicates and example data used to state the properties\<close>

text \<open>
  The rows a successful call keeps, as one predicate per test: a row passes the frequency
  test of a list \<open>fs\<close>, and a row passes the start year test.
\<close>

definition frequency_keeps :: "pyval list \<Rightarrow> nat \<times> overview_row \<Rightarrow> bool" where
  "frequency_keeps fs ir =
     (PStr ''all'' \<in> set fs \<or> PStr (lower (frequency (snd ir))) \<in> set fs)"

definition year_keeps :: "pyval \<Rightarrow> nat \<times> overview_row \<Rightarrow> bool" where
  "year_keeps start_year ir =
     (if truthy start_year
      then (case leading_year (startPeriod (snd ir)) of
              Inl e \<Rightarrow> False
            | Inr y \<Rightarrow> y \<ge> the_int start_year)
      else True)"

text \<open>The directory of the end-to-end scenario.\<close>

definition example_directory :: "dataset list" where
  "example_directory =
     [\<lparr>dataset_id = 1, dataset_title = ''Property Price Index''\<rparr>,
      \<lparr>dataset_id = 2, dataset_title = ''Office Rental Index''\<rparr>,
      \<lparr>dataset_id = 3, dataset_title = ''Food Price Index''\<rparr>]"

text \<open>A metadata service that answers every identifier with one record.\<close>

definition example_metadata :: "pyval \<Rightarrow> metadata_record list option" where
  "example_metadata ID =
     Some [\<lparr>resourceId = key_of ID, title = ''Judicial Officers In State Courts'',
            frequency = ''Annual'', uom = ''Number'', datasource = ''STATE COURTS'',
            footnote = None, startPeriod = ''2012'', endPeriod = ''2019'',
            variables = [(''M891021.1'', ''Total'')], downloadFormats = ''csv'',
            termsOfUse = ''terms'', apiTermsOfService = ''api'', url = ''url''\<rparr>]"

text \<open>A session of three datasets; a series table is stood for by a string.\<close>

definition example_row :: "int \<Rightarrow> string \<Rightarrow> string \<Rightarrow> overview_row" where
  "example_row ID freq period =
     \<lparr>resourceId = ID, title = ''Price Index'', frequency = freq, uom = ''Index'',
      datasource = ''URBAN REDEVELOPMENT AUTHORITY'', footnote = None, startPeriod = period,
      endPeriod = ''2020 3Q'', variables = []\<rparr>"

definition example_session :: "string session" where
  "example_session =
     \<lparr>resource_ids = [15139, 17122, 14657],
      overview = [(0, example_row 14657 ''Annual'' ''2012''),
                  (1, example_row 15139 ''Quarterly'' ''1975 1Q''),
                  (2, example_row 17122 ''Quarterly'' ''2001 1Q'')],
      timeseries = [(15139, ''series 15139''), (17122, ''series 17122''),
                    (14657, ''series 14657'')]\<rparr>"

section \<open>Properties of the resolver\<close>

lemma re_compile_empty: "re_compile [] = Inr [[]]"
  by (simp add: re_compile_def)

lemma match_anywhere_Nil: "match_anywhere [] s"
  by (cases s) simp_all

lemma re_search_empty: "re_search [[]] s"
  by (simp add: re_search_def match_anywhere_Nil)

subsection \<open>Plain keyphrases: the pattern search is the substring search\<close>

lemma char_eq_code: "c = d \<longleftrightarrow> (of_char c :: nat) = of_char d"
  by auto

lemma plain_char_code:
  "plain_char c \<longleftrightarrow>
     (of_char c :: nat) \<notin> {92, 94, 36, 42, 43, 63, 123, 125, 91, 93, 40, 41, 46, 124}"
  by (simp add: plain_char_def special_chars_def char_eq_code [of c])

lemma plain_lower_char: "plain_char c \<Longrightarrow> plain_char (lower_char c)"
  by (auto simp: plain_char_code lower_char_def)

lemma plain_lower: "plain k \<Longrightarrow> plain (lower k)"
  by (induction k) (auto simp: plain_def lower_def plain_lower_char)

lemma plain_no_bar: "plain k \<Longrightarrow> CHR ''|'' \<notin> set k"
  by (auto simp: plain_def plain_char_def list_all_iff)

lemma plain_no_dot: "plain k \<Longrightarrow> CHR ''.'' \<notin> set k"
  by (auto simp: plain_def plain_char_def list_all_iff)

lemma split_alts_no_bar: "CHR ''|'' \<notin> set p \<Longrightarrow> split_alts p = [p]"
  by (induction p) auto

lemma split_alts_bar:
  "CHR ''|'' \<notin> set p \<Longrightarrow> split_alts (p @ CHR ''|'' # rest) = p # split_alts rest"
  by (induction p) auto

lemma split_alts_join:
  "ks \<noteq> [] \<Longrightarrow> list_all (\<lambda>k. CHR ''|'' \<notin> set k) ks \<Longrightarrow> split_alts (join_bar ks) = ks"
  by (induction ks rule: join_bar.induct) (simp_all add: split_alts_no_bar split_alts_bar)

lemma set_join_bar: "set (join_bar ks) \<subseteq> insert (CHR ''|'') (\<Union> (set ` set ks))"
  by (induction ks rule: join_bar.induct) auto

lemma join_bar_not_special:
  assumes "list_all plain ks"
  shows "\<not> list_ex (\<lambda>c. c \<in> set special_chars) (join_bar ks)"
proof -
  have "c \<notin> set special_chars" if "c \<in> set (join_bar ks)" for c
  proof -
    from that set_join_bar [of ks] have "c = CHR ''|'' \<or> (\<exists>k \<in> set ks. c \<in> set k)"
      by auto
    then show ?thesis
    proof
      assume "c = CHR ''|''"
      then show ?thesis by (simp add: special_chars_def)
    next
      assume "\<exists>k \<in> set ks. c \<in> set k"
      with assms show ?thesis by (auto simp: plain_def plain_char_def list_all_iff)
    qed
  qed
  then show ?thesis by (auto simp: list_ex_iff)
qed

lemma map_to_atom_plain: "CHR ''.'' \<notin> set k \<Longrightarrow> map to_atom k = map Lit k"
  by (induction k) (auto simp: to_atom_def)

lemma match_here_Lit: "match_here (map Lit k) s = startswith k s"
  by (induction k s rule: startswith.induct) simp_all

lemma match_anywhere_Lit: "match_anywhere (map Lit k) s = str_contains k s"
  by (induction s) (simp_all add: match_here_Lit)

lemma re_compile_plain:
  assumes "ks \<noteq> []" and "list_all plain ks"
  shows "re_compile (join_bar ks) = Inr (map (map Lit) ks)"
proof -
  from assms(2) have nobar: "list_all (\<lambda>k. CHR ''|'' \<notin> set k) ks"
    by (auto simp: list_all_iff plain_no_bar)
  have "map (map to_atom) ks = map (map Lit) ks"
    using assms(2) by (auto simp: list_all_iff plain_no_dot map_to_atom_plain)
  then show ?thesis
    using join_bar_not_special [OF assms(2)] split_alts_join [OF assms(1) nobar]
    by (simp add: re_compile_def)
qed

lemma re_search_Lit: "re_search (map (map Lit) ks) s = list_ex (\<lambda>k. str_contains k s) ks"
  by (simp add: re_search_def list_ex_iff match_anywhere_Lit)

lemma get_resource_id_any_plain:
  assumes "records \<noteq> []" and "ks \<noteq> []" and "list_all plain ks"
  shows "get_resource_id (Some records) (PList (map PStr ks)) (PBool False) =
     Inr (Some (map dataset_id (filter (\<lambda>d. list_ex (title_has d) ks) records)))"
proof -
  have lows: "map (\<lambda>k. lower (the_str k)) (map PStr ks) = map lower ks"
    by (simp add: comp_def)
  have "list_all plain (map lower ks)"
    using assms(3) by (auto simp: list_all_iff plain_lower)
  with assms(2) have rc: "re_compile (join_bar (map lower ks)) = Inr (map (map Lit) (map lower ks))"
    by (simp add: re_compile_plain)
  have strs: "list_all is_str (map PStr ks)"
    by (simp add: list_all_iff)
  have "re_search (map (map Lit) (map lower ks)) (lower (dataset_title d))
      = list_ex (title_has d) ks" for d
    unfolding re_search_Lit by (simp add: list_ex_iff title_has_def)
  then show ?thesis
    using assms(1) by (simp add: get_resource_id_def lows rc strs del: map_map)
qed

lemma get_resource_id_all:
  assumes "records \<noteq> []"
  shows "get_resource_id (Some records) (PList (map PStr ks)) (PBool True) =
     Inr (Some (map dataset_id (filter (\<lambda>d. list_all (title_has d) ks) records)))"
  using assms by (simp add: get_resource_id_def list_all_iff)

text \<open>\<open>str_contains\<close> is the substring relation.\<close>

lemma startswith_iff: "startswith p s \<longleftrightarrow> (\<exists>v. s = p @ v)"
  by (induction p s rule: startswith.induct) auto

lemma str_contains_iff: "str_contains p s \<longleftrightarrow> (\<exists>u v. s = u @ p @ v)"
proof (induction s)
  case Nil
  then show ?case by (simp add: startswith_iff)
next
  case (Cons d s)
  have "(\<exists>u v. d # s = u @ p @ v) \<longleftrightarrow> (\<exists>v. d # s = p @ v) \<or> (\<exists>u v. s = u @ p @ v)"
  proof
    assume "\<exists>u v. d # s = u @ p @ v"
    then obtain u v where uv: "d # s = u @ p @ v" by blast
    show "(\<exists>v. d # s = p @ v) \<or> (\<exists>u v. s = u @ p @ v)"
    proof (cases u)
      case Nil
      with uv show ?thesis by auto
    next
      case (Cons c u')
      with uv have "s = u' @ p @ v" by simp
      then show ?thesis by blast
    qed
  next
    assume "(\<exists>v. d # s = p @ v) \<or> (\<exists>u v. s = u @ p @ v)"
    then show "\<exists>u v. d # s = u @ p @ v"
    proof
      assume "\<exists>v. d # s = p @ v"
      then obtain v where "d # s = [] @ p @ v" by auto
      then show ?thesis by blast
    next
      assume "\<exists>u v. s = u @ p @ v"
      then obtain u v where "s = u @ p @ v" by blast
      then have "d # s = (d # u) @ p @ v" by simp
      then show ?thesis by blast
    qed
  qed
  with Cons show ?case by (simp add: startswith_iff)
qed

text \<open>The scenario of the specification, on the example directory.\<close>

lemma get_resource_id_scenario:
  "get_resource_id (Some example_directory) (PStr ''price'') (PBool False) = Inr (Some [1, 3])
   \<and> get_resource_id (Some example_directory) (PList [PStr ''food'', PStr ''office''])
        (PBool False) = Inr (Some [2, 3])
   \<and> get_resource_id (Some example_directory) (PList [PStr ''food'', PStr ''price''])
        (PBool True) = Inr (Some [3])"
  by code_simp

text \<open>
  The claim C1 as it stands fails in two ways. For the empty directory the code returns
  \<^verbatim>\<open>None\<close> (lines 73 to 75), not the empty list. And the branch \<^verbatim>\<open>match_all == False\<close> does
  not search for substrings: it joins the keyphrases with \<^verbatim>\<open>|\<close> and searches for the result
  as a regular expression, without escaping. On the example directory the single
  keyphrase \<^verbatim>\<open>price.index\<close> selects the identifiers 1 and 3, since \<^verbatim>\<open>.\<close> matches the space of
  \<^verbatim>\<open>price index\<close>, although no title contains \<^verbatim>\<open>price.index\<close>; the same keyphrase given as a
  string, or with \<^verbatim>\<open>match_all=True\<close>, selects nothing.
\<close>

theorem get_resource_id_any_counterexample:
  "get_resource_id (Some []) (PList [PStr ''price'']) (PBool False) = Inr None
   \<and> get_resource_id (Some example_directory) (PList [PStr ''price.index'']) (PBool False)
     = Inr (Some [1, 3])
   \<and> filter (\<lambda>d. list_ex (\<lambda>k. str_contains (lower k) (lower (dataset_title d)))
        [''price.index'']) example_directory = []
   \<and> get_resource_id (Some example_directory) (PStr ''price.index'') (PBool False)
     = Inr (Some [])
   \<and> get_resource_id (Some example_directory) (PList [PStr ''price.index'']) (PBool True)
     = Inr (Some [])"
  by code_simp

text \<open>
  C1, amended. For every directory that is not empty and every non-empty list of plain
  keyphrases (none holds a character that is special in a regular expression),
  \<^verbatim>\<open>get_resource_id\<close> with \<^verbatim>\<open>match_all=False\<close> returns exactly the identifiers, in directory
  order, of the entries whose lower-cased title contains the lower-cased form of at least
  one keyphrase as a substring.
\<close>

theorem get_resource_id_any_substring:
  assumes "records \<noteq> []" and "ks \<noteq> []" and "list_all plain ks"
  shows "get_resource_id (Some records) (PList (map PStr ks)) (PBool False) =
     Inr (Some (map dataset_id
       (filter (\<lambda>d. list_ex (\<lambda>k. str_contains (lower k) (lower (dataset_title d))) ks)
          records)))"
proof -
  have "title_has d = (\<lambda>k. str_contains (lower k) (lower (dataset_title d)))" for d
    by (simp add: fun_eq_iff title_has_def)
  then show ?thesis
    using get_resource_id_any_plain [OF assms] by simp
qed

theorem get_resource_id_any_substring_witness:
  "get_resource_id (Some example_directory) (PList (map PStr [''food'', ''office'']))
     (PBool False) = Inr (Some [2, 3])"
proof -
  have ne: "example_directory \<noteq> []"
    by (simp add: example_directory_def)
  have ks: "[''food'', ''office''] \<noteq> []"
    by simp
  have pl: "list_all plain [''food'', ''office'']"
    by (simp add: plain_def plain_char_def special_chars_def)
  have sel: "map dataset_id
       (filter (\<lambda>d. list_ex (\<lambda>k. str_contains (lower k) (lower (dataset_title d)))
          [''food'', ''office'']) example_directory) = [2, 3]"
    by code_simp
  show ?thesis
    by (simp only: get_resource_id_any_substring [OF ne ks pl] sel)
qed

subsection \<open>Counting the matches\<close>

lemma filter_incl_excl:
  "length (filter (\<lambda>x. P x \<or> Q x) xs) + length (filter (\<lambda>x. P x \<and> Q x) xs)
     = length (filter P xs) + length (filter Q xs)"
  by (induction xs) auto

text \<open>
  The count identity fails for keyphrase lists of more than one keyphrase: with
  \<open>A\<close> = food, office and \<open>B\<close> = price on the example directory, the four calls return
  3, 2, 2 and 0 identifiers.
\<close>

theorem incl_excl_lists_counterexample:
  "get_resource_id (Some example_directory)
       (PList [PStr ''food'', PStr ''office'', PStr ''price'']) (PBool False)
     = Inr (Some [1, 2, 3])
   \<and> get_resource_id (Some example_directory) (PList [PStr ''food'', PStr ''office''])
       (PBool False) = Inr (Some [2, 3])
   \<and> get_resource_id (Some example_directory) (PList [PStr ''price'']) (PBool False)
     = Inr (Some [1, 3])
   \<and> get_resource_id (Some example_directory)
       (PList [PStr ''food'', PStr ''office'', PStr ''price'']) (PBool True)
     = Inr (Some [])
   \<and> int (length [1, 2, 3 :: int])
       \<noteq> int (length [2, 3 :: int]) + int (length [1, 3 :: int]) - int (length ([] :: int list))"
  by code_simp

text \<open>
  C3, amended. For a directory that is not empty and two plain keyphrases \<open>a\<close> and \<open>b\<close>
  (each list holding one keyphrase), the number of identifiers returned for \<open>[a, b]\<close>
  with \<^verbatim>\<open>match_all=False\<close> is the number returned for \<open>[a]\<close> plus the number returned for
  \<open>[b]\<close> minus the number returned for \<open>[a, b]\<close> with \<^verbatim>\<open>match_all=True\<close>.
\<close>

theorem incl_excl_single:
  assumes "records \<noteq> []" and "plain a" and "plain b"
  shows "\<exists>r_any r_a r_b r_all.
       get_resource_id (Some records) (PList [PStr a, PStr b]) (PBool False) = Inr (Some r_any)
     \<and> get_resource_id (Some records) (PList [PStr a]) (PBool False) = Inr (Some r_a)
     \<and> get_resource_id (Some records) (PList [PStr b]) (PBool False) = Inr (Some r_b)
     \<and> get_resource_id (Some records) (PList [PStr a, PStr b]) (PBool True) = Inr (Some r_all)
     \<and> int (length r_any) = int (length r_a) + int (length r_b) - int (length r_all)"
proof -
  have 1: "get_resource_id (Some records) (PList [PStr a, PStr b]) (PBool False) =
      Inr (Some (map dataset_id (filter (\<lambda>d. title_has d a \<or> title_has d b) records)))"
    using get_resource_id_any_plain [of records "[a, b]"] assms by simp
  have 2: "get_resource_id (Some records) (PList [PStr a]) (PBool False) =
      Inr (Some (map dataset_id (filter (\<lambda>d. title_has d a) records)))"
    using get_resource_id_any_plain [of records "[a]"] assms by simp
  have 3: "get_resource_id (Some records) (PList [PStr b]) (PBool False) =
      Inr (Some (map dataset_id (filter (\<lambda>d. title_has d b) records)))"
    using get_resource_id_any_plain [of records "[b]"] assms by simp
  have 4: "get_resource_id (Some records) (PList [PStr a, PStr b]) (PBool True) =
      Inr (Some (map dataset_id (filter (\<lambda>d. title_has d a \<and> title_has d b) records)))"
    using get_resource_id_all [of records "[a, b]"] assms by simp
  show ?thesis
    using filter_incl_excl [of "\<lambda>d. title_has d a" "\<lambda>d. title_has d b" records]
    by (simp add: 1 2 3 4)
qed

theorem incl_excl_single_witness:
  "\<exists>r_any r_a r_b r_all.
       get_resource_id (Some example_directory) (PList [PStr ''food'', PStr ''price''])
         (PBool False) = Inr (Some r_any)
     \<and> get_resource_id (Some example_directory) (PList [PStr ''food'']) (PBool False)
         = Inr (Some r_a)
     \<and> get_resource_id (Some example_directory) (PList [PStr ''price'']) (PBool False)
         = Inr (Some r_b)
     \<and> get_resource_id (Some example_directory) (PList [PStr ''food'', PStr ''price''])
         (PBool True) = Inr (Some r_all)
     \<and> int (length r_any) = int (length r_a) + int (length r_b) - int (length r_all)"
proof -
  have "example_directory \<noteq> []"
    by (simp add: example_directory_def)
  moreover have "plain ''food''" and "plain ''price''"
    by (simp_all add: plain_def plain_char_def special_chars_def)
  ultimately show ?thesis
    by (rule incl_excl_single)
qed

subsection \<open>The empty list of keyphrases\<close>

text \<open>
  C9. With the empty list of keyphrases and a directory that is not empty,
  \<^verbatim>\<open>get_resource_id\<close> returns every identifier of the directory, in directory order,
  whether \<^verbatim>\<open>match_all\<close> is false (the joined pattern is empty and matches every title) or
  true (\<^verbatim>\<open>all\<close> of no condition holds).
\<close>

theorem get_resource_id_empty_list:
  "records \<noteq> [] \<Longrightarrow>
   get_resource_id (Some records) (PList []) (PBool match_all) =
     Inr (Some (map dataset_id records))"
  by (simp add: get_resource_id_def re_compile_empty re_search_empty)

theorem get_resource_id_empty_list_witness:
  "get_resource_id
     (Some [\<lparr>dataset_id = 1, dataset_title = ''Property Price Index''\<rparr>,
            \<lparr>dataset_id = 2, dataset_title = ''Office Rental Index''\<rparr>])
     (PList []) (PBool False) = Inr (Some [1, 2])
   \<and> get_resource_id
     (Some [\<lparr>dataset_id = 1, dataset_title = ''Property Price Index''\<rparr>,
            \<lparr>dataset_id = 2, dataset_title = ''Office Rental Index''\<rparr>])
     (PList []) (PBool True) = Inr (Some [1, 2])"
  using
    get_resource_id_empty_list
      [of "[\<lparr>dataset_id = 1, dataset_title = ''Property Price Index''\<rparr>,
            \<lparr>dataset_id = 2, dataset_title = ''Office Rental Index''\<rparr>]" False]
    get_resource_id_empty_list
      [of "[\<lparr>dataset_id = 1, dataset_title = ''Property Price Index''\<rparr>,
            \<lparr>dataset_id = 2, dataset_title = ''Office Rental Index''\<rparr>]" True]
  by simp

section \<open>Properties of the metadata aggregator\<close>

lemma length_DataFrame: "length (DataFrame rows) = length rows"
  by (simp add: DataFrame_def)

text \<open>When every request answers with one record, the loop adds one row per identifier.\<close>

lemma build_all_single:
  "\<forall>ID \<in> set ids. \<exists>m. get_json ID = Some [m] \<Longrightarrow>
   \<exists>df. build_all get_json acc ids = Inr df \<and> length df = length acc + length ids"
proof (induction ids arbitrary: acc)
  case Nil
  then show ?case by simp
next
  case (Cons ID ids)
  then obtain m where m: "get_json ID = Some [m]" by auto
  have step: "build_metadata_table get_json acc ID = Inr (acc @ DataFrame [drop_columns m])"
    by (simp add: build_metadata_table_def m)
  from Cons.IH [of "acc @ DataFrame [drop_columns m]"] Cons.prems
  obtain df where "build_all get_json (acc @ DataFrame [drop_columns m]) ids = Inr df"
    and "length df = length (acc @ DataFrame [drop_columns m]) + length ids"
    by auto
  then show ?case by (simp add: step length_DataFrame)
qed

lemma reset_index_props:
  "length (reset_index df) = length df"
  "map fst (reset_index df) = [0 ..< length df]"
  "map snd (reset_index df) = map snd df"
  by (simp_all add: reset_index_def DataFrame_def)

lemma resourceId_reset_index:
  "map (\<lambda>ir. resourceId (snd ir)) (reset_index df) = map (\<lambda>ir. resourceId (snd ir)) df"
proof -
  have "map (\<lambda>ir. resourceId (snd ir)) d = map resourceId (map snd d)" for d :: dataframe
    by (simp add: comp_def)
  then show ?thesis by (simp only: reset_index_props(3))
qed

lemma sorted_sort_values: "sorted (map (\<lambda>ir. resourceId (snd ir)) (sort_values df))"
  by (simp add: sort_values_def)

text \<open>
  For every list of identifiers that is not empty, each an integer and each answered by
  the metadata service with exactly one record, \<^verbatim>\<open>get_overview\<close> returns a table with one
  row per identifier, sorted ascending by identifier, whose row labels are 0, 1, ... in
  order.
\<close>

lemma get_overview_rows:
  assumes "ids \<noteq> []" and "list_all isinstance_int ids"
    and "\<forall>ID \<in> set ids. \<exists>m. get_json ID = Some [m]"
  shows "\<exists>df. get_overview get_json (PList ids) = Inr df
     \<and> length df = length ids
     \<and> sorted (map (\<lambda>ir. resourceId (snd ir)) df)
     \<and> map fst df = [0 ..< length ids]"
proof -
  from build_all_single [OF assms(3), of "[]"]
  obtain df_full where b: "build_all get_json [] ids = Inr df_full"
    and len: "length df_full = length ids" by auto
  from len assms(1) have ne: "df_full \<noteq> []" by auto
  have res: "get_overview get_json (PList ids) = Inr (reset_index (sort_values df_full))"
    using assms(2) b ne by (simp add: get_overview_def)
  have "length (sort_values df_full) = length ids"
    by (simp add: sort_values_def len)
  then show ?thesis
    using res by (simp add: reset_index_props resourceId_reset_index sorted_sort_values)
qed

lemma get_overview_rows_example:
  "\<exists>df. get_overview example_metadata (PList [PInt 17122, PInt 14657]) = Inr df
     \<and> length df = length [PInt 17122, PInt 14657]
     \<and> sorted (map (\<lambda>ir. resourceId (snd ir)) df)
     \<and> map fst df = [0 ..< length [PInt 17122, PInt 14657]]"
  using get_overview_rows [of "[PInt 17122, PInt 14657]" example_metadata]
  by (simp add: example_metadata_def)

text \<open>
  C8. The claim: for every sequence of \<open>n\<close> distinct valid identifiers, each answered with
  exactly one record, \<^verbatim>\<open>get_overview\<close> returns a table of \<open>n\<close> rows, sorted by identifier
  and labelled from 0. That holds for every sequence that is not empty (the lemma above).
  For the empty sequence the loop adds nothing, the frame is still \<^verbatim>\<open>pd.DataFrame()\<close> and
  has no column \<^verbatim>\<open>resourceId\<close> to sort by, and \<^verbatim>\<open>get_overview\<close> raises \<^verbatim>\<open>KeyError\<close> instead of
  returning a table without rows.
\<close>

theorem get_overview_empty_raises:
  "check_resource_ids (PList []) = Inr ()
   \<and> build_all example_metadata [] [] = Inr []
   \<and> get_overview example_metadata (PList []) = Inl KeyError"
  by (simp add: get_overview_def)

text \<open>On the same input the rows come out in the order 14657, 17122.\<close>

lemma get_overview_example:
  "map_sum id (map (\<lambda>ir. (fst ir, resourceId (snd ir))))
     (get_overview example_metadata (PList [PInt 17122, PInt 14657]))
   = Inr [(0, 14657), (1, 17122)]"
  by code_simp

section \<open>Properties of the constructor\<close>

lemma get_overview_None: "get_overview meta_json PNone = Inl TypeError"
  by (simp add: get_overview_def)

text \<open>
  C10. When the directory request fails or the directory is empty, \<^verbatim>\<open>get_resource_id\<close>
  (called with well-typed arguments) returns \<^verbatim>\<open>None\<close>; \<^verbatim>\<open>get_overview\<close> rejects \<^verbatim>\<open>None\<close>
  with a \<^verbatim>\<open>TypeError\<close> from \<^verbatim>\<open>check_resource_ids\<close>; so the constructor raises \<^verbatim>\<open>TypeError\<close>
  and no session, empty or not, comes into being.
\<close>

theorem init_fails_without_result:
  assumes "json = None \<or> json = Some []"
    and "keyphrases_ok keyphrases" and "is_bool match_all"
  shows "get_resource_id json keyphrases match_all = Inr None
     \<and> check_resource_ids (ids_value None) = Inl TypeError
     \<and> get_overview meta_json (ids_value None) = Inl TypeError
     \<and> timeseries_search_init json meta_json build_table keyphrases match_all = Inl TypeError"
  using assms
  by (auto simp: timeseries_search_init_def get_overview_None get_resource_id_def)

theorem init_fails_without_result_witness:
  "get_resource_id None (PStr ''price'') (PBool False) = Inr None
     \<and> check_resource_ids (ids_value None) = Inl TypeError
     \<and> get_overview (\<lambda>ID. None) (ids_value None) = Inl TypeError
     \<and> timeseries_search_init None (\<lambda>ID. None)
          (\<lambda>limit offset ID. (Inl KeyError :: error + unit)) (PStr ''price'') (PBool False)
        = Inl TypeError"
  using init_fails_without_result
    [of None "PStr ''price''" "PBool False" "\<lambda>ID. None"
        "\<lambda>limit offset ID. (Inl KeyError :: error + unit)"]
  by simp

section \<open>Properties of \<^verbatim>\<open>filter_datasets\<close>\<close>

subsection \<open>The check of \<^verbatim>\<open>start_year\<close>\<close>

lemma length_str_nat_small: "n < 10 \<Longrightarrow> length (str_nat n) = 1"
  by (subst str_nat.simps) simp

lemma length_str_nat_step: "10 \<le> n \<Longrightarrow> length (str_nat n) = Suc (length (str_nat (n div 10)))"
  by (subst str_nat.simps) simp

lemma length_str_nat_pos: "0 < length (str_nat n)"
  by (subst str_nat.simps) simp

lemma length_str_nat_4: "length (str_nat n) = 4 \<longleftrightarrow> 1000 \<le> n \<and> n \<le> 9999"
proof -
  consider "n < 10" | "10 \<le> n" "n < 100" | "100 \<le> n" "n < 1000"
    | "1000 \<le> n" "n < 10000" | "10000 \<le> n"
    by linarith
  then show ?thesis
  proof cases
    case 1
    then show ?thesis by (simp add: length_str_nat_small)
  next
    case 2
    then have "n div 10 < 10" by simp
    with 2 show ?thesis by (simp add: length_str_nat_step length_str_nat_small)
  next
    case 3
    then have "10 \<le> n div 10" "n div 10 < 100" "n div 10 div 10 < 10" by simp_all
    with 3 show ?thesis by (simp add: length_str_nat_step length_str_nat_small)
  next
    case 4
    then have "10 \<le> n div 10" "10 \<le> n div 10 div 10" "n div 10 div 10 div 10 < 10"
      by simp_all
    with 4 show ?thesis by (simp add: length_str_nat_step length_str_nat_small)
  next
    case 5
    then have "10 \<le> n" "10 \<le> n div 10" "10 \<le> n div 10 div 10" "10 \<le> n div 10 div 10 div 10"
      by simp_all
    then have "length (str_nat n) = 4 + length (str_nat (n div 10 div 10 div 10 div 10))"
      by (simp add: length_str_nat_step)
    with length_str_nat_pos [of "n div 10 div 10 div 10 div 10"] 5 show ?thesis by simp
  qed
qed

lemma length_str_nat_3: "length (str_nat n) = 3 \<longleftrightarrow> 100 \<le> n \<and> n \<le> 999"
proof -
  consider "n < 10" | "10 \<le> n" "n < 100" | "100 \<le> n" "n < 1000" | "1000 \<le> n"
    by linarith
  then show ?thesis
  proof cases
    case 1
    then show ?thesis by (simp add: length_str_nat_small)
  next
    case 2
    then have "n div 10 < 10" by simp
    with 2 show ?thesis by (simp add: length_str_nat_step length_str_nat_small)
  next
    case 3
    then have "10 \<le> n div 10" "n div 10 div 10 < 10" by simp_all
    with 3 show ?thesis by (simp add: length_str_nat_step length_str_nat_small)
  next
    case 4
    then have "10 \<le> n" "10 \<le> n div 10" "10 \<le> n div 10 div 10" by simp_all
    then have "length (str_nat n) = 3 + length (str_nat (n div 10 div 10 div 10))"
      by (simp add: length_str_nat_step)
    with length_str_nat_pos [of "n div 10 div 10 div 10"] 4 show ?thesis by simp
  qed
qed

text \<open>
  The integers the check accepts: those written with four characters, that is the
  four-digit positive integers and the three-digit negative ones.
\<close>

lemma start_year_ok_int:
  "start_year_ok (PInt n) \<longleftrightarrow> (1000 \<le> n \<and> n \<le> 9999) \<or> (- 999 \<le> n \<and> n \<le> - 100)"
proof (cases "n < 0")
  case True
  then show ?thesis by (auto simp: str_int_def length_str_nat_3)
next
  case False
  then show ?thesis by (auto simp: str_int_def length_str_nat_4)
qed

lemma start_year_ok_None: "start_year_ok PNone"
  by simp

text \<open>
  C5. The claim: a present \<^verbatim>\<open>start_year\<close> is accepted exactly when it is an integer between
  1000 and 9999. The code measures \<^verbatim>\<open>len(str(start_year))\<close>, which counts the minus sign:
  \<^verbatim>\<open>start_year=-100\<close> is written with four characters and passes the check, although the
  message of the exception asks for a 4 digit integer.
\<close>

theorem start_year_negative_accepted:
  "str_int (- 100) = ''-100''
   \<and> start_year_ok (PInt (- 100))
   \<and> check_filter_args (PList [PStr ''annual'']) (PInt (- 100)) (PBool False) = Inr ()"
  by code_simp

subsection \<open>The check of \<^verbatim>\<open>frequency\<close>\<close>

lemma check_filter_args_list:
  "start_year_ok start_year \<Longrightarrow>
   check_filter_args (PList (map PStr fs)) start_year (PBool inplace) = Inr ()"
  by (simp add: check_filter_args_def list_all_iff)

lemma frequencies_recognized:
  "f \<in> set [''annual'', ''quarterly'', ''monthly'', ''ad-hoc'', ''half-yearly''] \<Longrightarrow>
   f \<in> set frequencies \<and> f \<noteq> ''all''"
  by (auto simp: frequencies_def)

lemma frequency_filter_recognized:
  assumes "list_all (\<lambda>f. f \<in> set [''annual'', ''quarterly'', ''monthly'', ''ad-hoc'',
                                    ''half-yearly'']) fs"
  shows "frequency_filter ov (PList (map PStr fs)) =
     Inr (filter (\<lambda>ir. lower (frequency (snd ir)) \<in> set fs) ov)"
proof -
  from assms have a: "list_all (\<lambda>freq. the_str freq \<in> set frequencies) (map PStr fs)"
    using frequencies_recognized by (auto simp: list_all_iff)
  from assms have b: "PStr ''all'' \<notin> set (map PStr fs)"
    using frequencies_recognized by (auto simp: list_all_iff)
  have c: "PStr s \<in> set (map PStr fs) \<longleftrightarrow> s \<in> set fs" for s
    by auto
  show ?thesis
    using a b by (simp add: c del: set_map)
qed

lemma frequency_filter_unrecognized:
  assumes "list_ex (\<lambda>f. f \<notin> set [''all'', ''all,'', ''annual'', ''quarterly'', ''monthly'',
                                   ''ad-hoc'', ''half-yearly'']) fs"
  shows "frequency_filter ov (PList (map PStr fs)) = Inl AssertionError"
proof -
  from assms obtain f where "f \<in> set fs" and "f \<notin> set frequencies"
    by (auto simp: list_ex_iff frequencies_def)
  then have "\<not> list_all (\<lambda>freq. the_str freq \<in> set frequencies) (map PStr fs)"
    by (auto simp: list_all_iff)
  then show ?thesis by simp
qed

text \<open>
  The code compares the items of \<^verbatim>\<open>frequency\<close> with the recognized names as they are
  written: \<^verbatim>\<open>['Annual']\<close>, whose lower-cased item is recognized, fails the assertion.
\<close>

theorem frequency_case_counterexample:
  "list_all (\<lambda>f. lower f \<in> set [''all'', ''annual'', ''quarterly'', ''monthly'', ''ad-hoc'',
                                  ''half-yearly'']) [''Annual'']
   \<and> filter_datasets example_session (PList [PStr ''Annual'']) PNone (PBool False) =
       (Inl AssertionError, example_session)"
  by code_simp

text \<open>
  C4, amended. Let \<^verbatim>\<open>frequency\<close> be a list of strings, \<^verbatim>\<open>start_year\<close> pass its check and
  \<^verbatim>\<open>inplace\<close> be a boolean. If every item is, as written, one of annual, quarterly,
  monthly, ad-hoc, half-yearly, then the arguments pass the checks and the frequency
  test keeps the rows whose lower-cased frequency is an item of the list. If some item
  is, as written, none of all, annual, quarterly, monthly, ad-hoc, half-yearly (nor the
  string \<^verbatim>\<open>all,\<close>), the call raises \<^verbatim>\<open>AssertionError\<close> before any filtering and leaves the
  session as it was. Nothing is said here of a bare string or of the item \<^verbatim>\<open>all\<close>.
\<close>

theorem frequency_list_validation:
  "(list_all (\<lambda>f. f \<in> set [''annual'', ''quarterly'', ''monthly'', ''ad-hoc'',
                             ''half-yearly'']) fs
      \<and> start_year_ok start_year
     \<longrightarrow> check_filter_args (PList (map PStr fs)) start_year (PBool inplace) = Inr ()
       \<and> frequency_filter ov (PList (map PStr fs)) =
           Inr (filter (\<lambda>ir. lower (frequency (snd ir)) \<in> set fs) ov))
   \<and> (list_ex (\<lambda>f. f \<notin> set [''all'', ''all,'', ''annual'', ''quarterly'', ''monthly'',
                                ''ad-hoc'', ''half-yearly'']) fs'
      \<and> start_year_ok start_year
     \<longrightarrow> filter_datasets self (PList (map PStr fs')) start_year (PBool inplace) =
           (Inl AssertionError, self))"
proof (intro conjI impI)
  assume "list_all (\<lambda>f. f \<in> set [''annual'', ''quarterly'', ''monthly'', ''ad-hoc'',
                                   ''half-yearly'']) fs
      \<and> start_year_ok start_year"
  then show "check_filter_args (PList (map PStr fs)) start_year (PBool inplace) = Inr ()"
    by (simp add: check_filter_args_list)
next
  assume "list_all (\<lambda>f. f \<in> set [''annual'', ''quarterly'', ''monthly'', ''ad-hoc'',
                                   ''half-yearly'']) fs
      \<and> start_year_ok start_year"
  then show "frequency_filter ov (PList (map PStr fs)) =
           Inr (filter (\<lambda>ir. lower (frequency (snd ir)) \<in> set fs) ov)"
    using frequency_filter_recognized [of fs ov] by blast
next
  assume a: "list_ex (\<lambda>f. f \<notin> set [''all'', ''all,'', ''annual'', ''quarterly'', ''monthly'',
                                ''ad-hoc'', ''half-yearly'']) fs'
      \<and> start_year_ok start_year"
  then have "check_filter_args (PList (map PStr fs')) start_year (PBool inplace) = Inr ()"
    by (simp add: check_filter_args_list)
  moreover from a
  have "frequency_filter (overview self) (PList (map PStr fs')) = Inl AssertionError"
    using frequency_filter_unrecognized [of fs' "overview self"] by blast
  then have "new_ids_of (overview self) (PList (map PStr fs')) start_year = Inl AssertionError"
    by (simp add: new_ids_of_def)
  ultimately show "filter_datasets self (PList (map PStr fs')) start_year (PBool inplace) =
           (Inl AssertionError, self)"
    by (simp add: filter_datasets_def)
qed

theorem frequency_list_validation_witness:
  "check_filter_args (PList (map PStr [''annual'', ''quarterly''])) PNone (PBool False) = Inr ()
   \<and> frequency_filter (overview example_session) (PList (map PStr [''annual'', ''quarterly''])) =
       Inr (filter (\<lambda>ir. lower (frequency (snd ir)) \<in> set [''annual'', ''quarterly''])
              (overview example_session))
   \<and> filter_datasets example_session (PList (map PStr [''annual'', ''weekly''])) PNone
       (PBool False) = (Inl AssertionError, example_session)"
  using frequency_list_validation
    [of "[''annual'', ''quarterly'']" PNone False "overview example_session"
        "[''annual'', ''weekly'']" example_session]
  by simp

subsection \<open>The frequency \<^verbatim>\<open>all\<close> and a frequency given as a string\<close>

lemma filter_datasets_str_frequency:
  "start_year_ok start_year \<Longrightarrow> is_bool inplace \<Longrightarrow>
   filter_datasets self (PStr f) start_year inplace = (Inl UnboundLocalError, self)"
  by (simp add: filter_datasets_def check_filter_args_def new_ids_of_def)

text \<open>
  C2. The claim: with \<^verbatim>\<open>frequency\<close> equal to or including \<^verbatim>\<open>all\<close> and no \<^verbatim>\<open>start_year\<close>, the
  call skips the frequency test and yields the whole overview and all series. The code
  never gets there. The list of recognized names holds \<^verbatim>\<open>'all,'\<close> where \<^verbatim>\<open>'all'\<close> is meant, so
  a list that includes \<^verbatim>\<open>all\<close> fails the assertion of line 379; and for the string \<^verbatim>\<open>all\<close>, as
  for every string, line 386 reads the unbound variable \<^verbatim>\<open>freq\<close>. With well-typed
  arguments, whatever the start year, both calls raise and the session stays as it was.
\<close>

theorem filter_all_raises:
  assumes "start_year_ok start_year" and "is_bool inplace"
  shows "filter_datasets self (PStr ''all'') start_year inplace = (Inl UnboundLocalError, self)
     \<and> (list_all is_str fs \<and> PStr ''all'' \<in> set fs
        \<longrightarrow> filter_datasets self (PList fs) start_year inplace = (Inl AssertionError, self))"
proof (intro conjI impI)
  show "filter_datasets self (PStr ''all'') start_year inplace = (Inl UnboundLocalError, self)"
    using assms by (rule filter_datasets_str_frequency)
next
  assume a: "list_all is_str fs \<and> PStr ''all'' \<in> set fs"
  have "the_str (PStr ''all'') \<notin> set frequencies"
    by (simp add: frequencies_def)
  with a have "\<exists>freq \<in> set fs. the_str freq \<notin> set frequencies"
    by blast
  then have "\<not> list_all (\<lambda>freq. the_str freq \<in> set frequencies) fs"
    by (simp add: list_all_iff)
  then have "new_ids_of (overview self) (PList fs) start_year = Inl AssertionError"
    by (simp add: new_ids_of_def)
  moreover have "check_filter_args (PList fs) start_year inplace = Inr ()"
    using assms a by (simp add: check_filter_args_def)
  ultimately show "filter_datasets self (PList fs) start_year inplace = (Inl AssertionError, self)"
    by (simp add: filter_datasets_def)
qed

theorem filter_all_raises_witness:
  "filter_datasets example_session (PStr ''all'') PNone (PBool False)
     = (Inl UnboundLocalError, example_session)
   \<and> filter_datasets example_session (PList [PStr ''all'']) PNone (PBool False)
     = (Inl AssertionError, example_session)"
  using filter_all_raises [of PNone "PBool False" example_session "[PStr ''all'']"]
  by simp

subsection \<open>Dictionaries built from the cached series\<close>

lemma map_of_dict_set: "map_of (dict_set d k v) = (map_of d)(k \<mapsto> v)"
  by (induction d) (auto simp: fun_eq_iff)

lemma keys_dict_set: "fst ` set (dict_set d k v) = insert k (fst ` set d)"
  by (induction d) auto

lemma dict_comp_lookup:
  "dict_comp ts acc ids = Inr d \<Longrightarrow>
   map_of d k = (if k \<in> set ids then map_of ts k else map_of acc k)"
proof (induction ids arbitrary: acc)
  case Nil
  then show ?case by simp
next
  case (Cons ID ids)
  then obtain v where v: "map_of ts ID = Some v"
    and rest: "dict_comp ts (dict_set acc ID v) ids = Inr d"
    by (auto split: option.splits)
  from Cons.IH [OF rest] show ?case
    by (auto simp: map_of_dict_set v)
qed

lemma dict_comp_keys:
  "dict_comp ts acc ids = Inr d \<Longrightarrow> fst ` set d = fst ` set acc \<union> set ids"
proof (induction ids arbitrary: acc)
  case Nil
  then show ?case by simp
next
  case (Cons ID ids)
  then obtain v where rest: "dict_comp ts (dict_set acc ID v) ids = Inr d"
    by (auto split: option.splits)
  from Cons.IH [OF rest] show ?case
    by (simp add: keys_dict_set)
qed

lemma dict_comp_cong:
  "\<forall>k \<in> set ids. map_of ts k = map_of ts' k \<Longrightarrow> dict_comp ts acc ids = dict_comp ts' acc ids"
  by (induction ids arbitrary: acc) (auto split: option.splits)

text \<open>Building the dictionary again from its own result gives the same dictionary.\<close>

lemma dict_comp_again:
  assumes "dict_comp ts [] ids = Inr ts'"
  shows "dict_comp ts' [] ids = Inr ts'"
proof -
  have "\<forall>k \<in> set ids. map_of ts' k = map_of ts k"
    using dict_comp_lookup [OF assms] by simp
  then have "dict_comp ts' [] ids = dict_comp ts [] ids"
    by (rule dict_comp_cong)
  with assms show ?thesis by simp
qed

lemma dict_comp_total:
  "set ids \<subseteq> fst ` set ts \<Longrightarrow> \<exists>d. dict_comp ts acc ids = Inr d"
proof (induction ids arbitrary: acc)
  case Nil
  then show ?case by simp
next
  case (Cons ID ids)
  then have "map_of ts ID \<noteq> None"
    by (simp add: map_of_eq_None_iff)
  then obtain v where "map_of ts ID = Some v" by auto
  with Cons show ?case by simp
qed

subsection \<open>The call that does not work in place\<close>

text \<open>A call with \<^verbatim>\<open>inplace\<close> other than \<^verbatim>\<open>True\<close> leaves the session as it was.\<close>

lemma filter_datasets_copy_session:
  "inplace \<noteq> PBool True \<Longrightarrow> snd (filter_datasets self freq_arg start_year inplace) = self"
  by (simp add: filter_datasets_def split: sum.splits)

text \<open>
  When the call with \<^verbatim>\<open>inplace=False\<close> returns, it returns a dictionary whose keys are the
  surviving identifiers, each with the series the session holds for it.
\<close>

lemma filter_datasets_copy_result:
  assumes "filter_datasets self freq_arg start_year (PBool False) = (Inr r, self')"
  shows "\<exists>new_ids d. new_ids_of (overview self) freq_arg start_year = Inr new_ids
     \<and> r = Some d \<and> self' = self
     \<and> fst ` set d = set new_ids
     \<and> (\<forall>ID \<in> set new_ids. map_of d ID = map_of (timeseries self) ID)"
proof (cases "check_filter_args freq_arg start_year (PBool False)")
  case (Inl e)
  with assms show ?thesis by (simp add: filter_datasets_def)
next
  case chk: (Inr u)
  show ?thesis
  proof (cases "new_ids_of (overview self) freq_arg start_year")
    case (Inl e)
    with assms chk show ?thesis by (simp add: filter_datasets_def)
  next
    case n: (Inr new_ids)
    show ?thesis
    proof (cases "dict_comp (timeseries self) [] new_ids")
      case (Inl e)
      with assms chk n show ?thesis by (simp add: filter_datasets_def)
    next
      case d: (Inr d)
      with assms chk n have "r = Some d" and "self' = self"
        by (simp_all add: filter_datasets_def)
      with dict_comp_keys [OF d] dict_comp_lookup [OF d] n show ?thesis by simp
    qed
  qed
qed

text \<open>
  It does return for a list of recognized frequencies without a start year, when the
  session holds a series for every identifier of its overview.
\<close>

lemma filter_datasets_copy_returns:
  assumes "list_all (\<lambda>f. f \<in> set [''annual'', ''quarterly'', ''monthly'', ''ad-hoc'',
                                    ''half-yearly'']) fs"
    and "\<forall>ir \<in> set (overview self). resourceId (snd ir) \<in> fst ` set (timeseries self)"
  shows "\<exists>d. filter_datasets self (PList (map PStr fs)) PNone (PBool False) = (Inr (Some d), self)"
proof -
  define kept where "kept = filter (\<lambda>ir. lower (frequency (snd ir)) \<in> set fs) (overview self)"
  define new_ids where "new_ids = map (\<lambda>ir. resourceId (snd ir)) kept"
  have "frequency_filter (overview self) (PList (map PStr fs)) = Inr kept"
    unfolding kept_def using assms(1) by (rule frequency_filter_recognized)
  then have n: "new_ids_of (overview self) (PList (map PStr fs)) PNone = Inr new_ids"
    by (simp add: new_ids_of_def start_year_filter_def new_ids_def)
  have "set new_ids \<subseteq> fst ` set (timeseries self)"
    using assms(2) by (auto simp: new_ids_def kept_def)
  then obtain d where "dict_comp (timeseries self) [] new_ids = Inr d"
    using dict_comp_total by blast
  with n show ?thesis
    by (simp add: filter_datasets_def check_filter_args_list)
qed

text \<open>
  C6. The claim: for every valid \<^verbatim>\<open>frequency\<close> and \<^verbatim>\<open>start_year\<close>, the call with
  \<^verbatim>\<open>inplace=False\<close> returns the dictionary of the surviving identifiers and leaves the
  session as it was. The session is indeed left as it was, and a call that returns does
  return that dictionary (the three lemmas above); but a frequency given as a string,
  which the docstring allows, never returns: on the example session the call with
  \<^verbatim>\<open>frequency='annual'\<close> raises \<^verbatim>\<open>UnboundLocalError\<close> at line 386.
\<close>

theorem filter_str_frequency_raises:
  "filter_datasets example_session (PStr ''annual'') PNone (PBool False)
     = (Inl UnboundLocalError, example_session)"
  by code_simp

subsection \<open>Filtering in place, twice\<close>

lemma year_mask_Inr:
  "year_mask df n = Inr keep \<Longrightarrow> truthy start_year \<Longrightarrow> the_int start_year = n \<Longrightarrow>
   keep = map (year_keeps start_year) df"
proof (induction df arbitrary: keep)
  case Nil
  then show ?case by simp
next
  case (Cons ir df)
  then show ?case
    by (auto simp: year_keeps_def split: sum.splits)
qed

lemma bool_index_map:
  "bool_index df (map P df) = (if df = [] then NoColumns else Table (filter P df))"
proof -
  have "map fst (filter snd (zip df (map P df))) = filter P df"
    by (induction df) auto
  then show ?thesis by (simp add: bool_index_def)
qed

lemma filter_year_keeps_not_truthy:
  "\<not> truthy start_year \<Longrightarrow> filter (year_keeps start_year) df = df"
  by (simp add: year_keeps_def)

lemma start_year_filter_Inr:
  assumes "start_year_filter df start_year = Inr sel" and "column_resourceId sel = Inr ids"
  shows "ids = map (\<lambda>ir. resourceId (snd ir)) (filter (year_keeps start_year) df)"
proof (cases "truthy start_year")
  case False
  with assms show ?thesis
    by (auto simp: start_year_filter_def filter_year_keeps_not_truthy)
next
  case True
  with assms obtain keep where k: "year_mask df (the_int start_year) = Inr keep"
    and sel: "sel = bool_index df keep"
    by (auto simp: start_year_filter_def split: sum.splits)
  from year_mask_Inr [OF k True] have "keep = map (year_keeps start_year) df" by simp
  with sel assms(2) show ?thesis
    by (auto simp: bool_index_map split: if_splits)
qed

lemma frequency_filter_Inr:
  assumes "frequency_filter ov freq_arg = Inr df"
  shows "\<exists>fs. freq_arg = PList fs \<and> df = filter (frequency_keeps fs) ov"
proof -
  have keeps: "frequency_keeps fs =
      (\<lambda>ir. PStr ''all'' \<in> set fs \<or> PStr (lower (frequency (snd ir))) \<in> set fs)" for fs
    by (simp add: fun_eq_iff frequency_keeps_def)
  from assms show ?thesis
    by (cases freq_arg) (auto simp: keeps split: if_splits)
qed

text \<open>The identifiers a successful call computes are those of the rows that pass both tests.\<close>

lemma new_ids_of_Inr:
  assumes "new_ids_of ov freq_arg start_year = Inr ids"
  shows "\<exists>fs. freq_arg = PList fs \<and>
     ids = map (\<lambda>ir. resourceId (snd ir))
            (filter (\<lambda>ir. frequency_keeps fs ir \<and> year_keeps start_year ir) ov)"
proof -
  from assms obtain df sel where f: "frequency_filter ov freq_arg = Inr df"
    and y: "start_year_filter df start_year = Inr sel"
    and c: "column_resourceId sel = Inr ids"
    by (auto simp: new_ids_of_def split: sum.splits)
  from frequency_filter_Inr [OF f] obtain fs where fs: "freq_arg = PList fs"
    and df: "df = filter (frequency_keeps fs) ov" by auto
  from start_year_filter_Inr [OF y c] df
  have "ids = map (\<lambda>ir. resourceId (snd ir))
            (filter (\<lambda>ir. frequency_keeps fs ir \<and> year_keeps start_year ir) ov)"
    by (simp add: conj_commute)
  with fs show ?thesis by simp
qed

lemma filter_isin_survivors:
  "filter R (isin_ids ov (map (\<lambda>ir. resourceId (snd ir)) (filter R ov))) = filter R ov"
proof -
  have "R ir \<and> ir \<in> set ov \<Longrightarrow>
      resourceId (snd ir) \<in> set (map (\<lambda>ir. resourceId (snd ir)) (filter R ov))" for ir
    by auto
  then show ?thesis
    unfolding isin_ids_def filter_filter
    by (intro filter_cong) auto
qed

lemma new_ids_of_again:
  assumes "new_ids_of ov freq_arg start_year = Inr ids"
    and "new_ids_of (isin_ids ov ids) freq_arg start_year = Inr ids'"
  shows "ids' = ids"
proof -
  from new_ids_of_Inr [OF assms(1)] obtain fs where fs: "freq_arg = PList fs"
    and ids: "ids = map (\<lambda>ir. resourceId (snd ir))
            (filter (\<lambda>ir. frequency_keeps fs ir \<and> year_keeps start_year ir) ov)"
    by auto
  from new_ids_of_Inr [OF assms(2)] fs
  have "ids' = map (\<lambda>ir. resourceId (snd ir))
            (filter (\<lambda>ir. frequency_keeps fs ir \<and> year_keeps start_year ir) (isin_ids ov ids))"
    by auto
  then show ?thesis
    unfolding ids
    using filter_isin_survivors [of "\<lambda>ir. frequency_keeps fs ir \<and> year_keeps start_year ir" ov]
    by (simp add: ids [symmetric])
qed

lemma isin_ids_again: "isin_ids (isin_ids ov ids) ids = isin_ids ov ids"
  by (simp add: isin_ids_def)

text \<open>The in-place call on the example session, where one dataset survives.\<close>

lemma filter_inplace_example:
  "filter_datasets example_session (PList [PStr ''quarterly'']) (PInt 2000) (PBool True)
   = (Inr None,
      \<lparr>resource_ids = [17122],
       overview = [(2, example_row 17122 ''Quarterly'' ''2001 1Q'')],
       timeseries = [(17122, ''series 17122'')]\<rparr>)"
  by code_simp

text \<open>
  C7. Calling \<^verbatim>\<open>filter_datasets\<close> in place a second time with the same arguments leaves
  \<^verbatim>\<open>resource_ids\<close>, \<^verbatim>\<open>overview\<close> and \<^verbatim>\<open>timeseries\<close> exactly as the first call left them. This
  holds for every session and all arguments, so also for \<^verbatim>\<open>frequency='quarterly'\<close>,
  \<^verbatim>\<open>start_year=2000\<close> (where, the frequency being a string, both calls raise and the
  session is never touched) and for \<^verbatim>\<open>frequency=['quarterly']\<close>, where the first call
  filters; it holds too when a call raises after \<^verbatim>\<open>resource_ids\<close> and \<^verbatim>\<open>overview\<close> were
  assigned.
\<close>

theorem filter_inplace_twice:
  "snd (filter_datasets (snd (filter_datasets self freq_arg start_year (PBool True)))
          freq_arg start_year (PBool True))
   = snd (filter_datasets self freq_arg start_year (PBool True))"
proof (cases "check_filter_args freq_arg start_year (PBool True)")
  case (Inl e)
  then show ?thesis by (simp add: filter_datasets_def)
next
  case chk: (Inr u)
  show ?thesis
  proof (cases "new_ids_of (overview self) freq_arg start_year")
    case (Inl e)
    then show ?thesis by (simp add: filter_datasets_def chk)
  next
    case ids: (Inr new_ids)
    define ov1 where "ov1 = isin_ids (overview self) new_ids"
    show ?thesis
    proof (cases "dict_comp (timeseries self) [] new_ids")
      case err: (Inl e)
      have first: "snd (filter_datasets self freq_arg start_year (PBool True))
          = self\<lparr>resource_ids := new_ids, overview := ov1\<rparr>"
        by (simp add: filter_datasets_def chk ids err ov1_def)
      show ?thesis
      proof (cases "new_ids_of ov1 freq_arg start_year")
        case (Inl e')
        then show ?thesis unfolding first by (simp add: filter_datasets_def chk)
      next
        case (Inr ids')
        with new_ids_of_again [OF ids] have "ids' = new_ids" by (simp add: ov1_def)
        with Inr show ?thesis
          unfolding first by (simp add: filter_datasets_def chk err ov1_def isin_ids_again)
      qed
    next
      case ok: (Inr ts')
      have first: "snd (filter_datasets self freq_arg start_year (PBool True))
          = self\<lparr>resource_ids := new_ids, overview := ov1, timeseries := ts'\<rparr>"
        by (simp add: filter_datasets_def chk ids ok ov1_def)
      show ?thesis
      proof (cases "new_ids_of ov1 freq_arg start_year")
        case (Inl e')
        then show ?thesis unfolding first by (simp add: filter_datasets_def chk)
      next
        case (Inr ids')
        with new_ids_of_again [OF ids] have "ids' = new_ids" by (simp add: ov1_def)
        with Inr show ?thesis
          unfolding first
          by (simp add: filter_datasets_def chk dict_comp_again [OF ok] ov1_def isin_ids_again)
      qed
    qed
  qed
qed

end
